theory Spec2Isabelle
  imports Main "HOL-Library.Sublist" "HOL-Library.Char_ord" "HOL-Library.List_Lexorder"
begin

section \<open>Text primitives of the two documentation scripts\<close>

text \<open>
  The scripts \<^verbatim>\<open>scripts/check_docs_governance.py\<close> and
  \<^verbatim>\<open>scripts/generate_release_notes.py\<close> work on Python \<^verbatim>\<open>str\<close> values.
  A text is modelled as a \<^typ>\<open>string\<close>; one \<^typ>\<open>char\<close> stands for one code point
  below 256, so the character classes below are Python's classes restricted to that range.
  Texts with code points from 256 on are outside the model.
\<close>

abbreviation LF :: char where "LF \<equiv> CHR 0x0A"

abbreviation CR :: char where "CR \<equiv> CHR 0x0D"

abbreviation sq :: string where "sq \<equiv> [CHR 0x27]"

text \<open>Whitespace as \<^verbatim>\<open>str.strip()\<close> and the pattern \<^verbatim>\<open>\s\<close> see it.\<close>

definition is_space :: "char \<Rightarrow> bool" where
  "is_space c = (c = CHR 0x09 \<or> c = LF \<or> c = CHR 0x0B \<or> c = CHR 0x0C \<or> c = CR
     \<or> c = CHR 0x1C \<or> c = CHR 0x1D \<or> c = CHR 0x1E \<or> c = CHR 0x1F \<or> c = CHR 0x20
     \<or> c = CHR 0x85 \<or> c = CHR 0xA0)"

text \<open>The line boundaries of \<^verbatim>\<open>str.splitlines()\<close>.\<close>

definition is_linebreak :: "char \<Rightarrow> bool" where
  "is_linebreak c = (c = LF \<or> c = CHR 0x0B \<or> c = CHR 0x0C \<or> c = CR
     \<or> c = CHR 0x1C \<or> c = CHR 0x1D \<or> c = CHR 0x1E \<or> c = CHR 0x85)"

text \<open>The pattern \<^verbatim>\<open>\d\<close>.\<close>

definition is_digit :: "char \<Rightarrow> bool" where
  "is_digit c = (c = CHR ''0'' \<or> c = CHR ''1'' \<or> c = CHR ''2'' \<or> c = CHR ''3'' \<or> c = CHR ''4''
     \<or> c = CHR ''5'' \<or> c = CHR ''6'' \<or> c = CHR ''7'' \<or> c = CHR ''8'' \<or> c = CHR ''9'')"

definition lstrip :: "string \<Rightarrow> string" where
  "lstrip s = dropWhile is_space s"

definition rstrip :: "string \<Rightarrow> string" where
  "rstrip s = rev (dropWhile is_space (rev s))"

definition strip :: "string \<Rightarrow> string" where
  "strip s = rstrip (lstrip s)"

text \<open>\<^verbatim>\<open>s.strip("|")\<close>: the given character removed from both ends.\<close>

definition strip_char :: "char \<Rightarrow> string \<Rightarrow> string" where
  "strip_char d s = rev (dropWhile (\<lambda>c. c = d) (rev (dropWhile (\<lambda>c. c = d) s)))"

text \<open>\<^verbatim>\<open>s.split("|")\<close>: always at least one piece.\<close>

fun split_from :: "char \<Rightarrow> string \<Rightarrow> string \<Rightarrow> string list" where
  "split_from d cur [] = [cur]"
| "split_from d cur (c # cs) =
     (if c = d then cur # split_from d [] cs else split_from d (cur @ [c]) cs)"

definition split_on :: "char \<Rightarrow> string \<Rightarrow> string list" where
  "split_on d s = split_from d [] s"

text \<open>
  \<^verbatim>\<open>s.splitlines()\<close>: the breaks are dropped, CR LF is one break, and a text that ends
  with a break has no empty last line.
\<close>

fun splitlines_from :: "string \<Rightarrow> string \<Rightarrow> string list" where
  "splitlines_from cur [] = (if cur = [] then [] else [cur])"
| "splitlines_from cur (c # cs) =
     (if c = CR then
        (case cs of
           [] \<Rightarrow> [cur]
         | d # ds \<Rightarrow> if d = LF then cur # splitlines_from [] ds else cur # splitlines_from [] cs)
      else if is_linebreak c then cur # splitlines_from [] cs
      else splitlines_from (cur @ [c]) cs)"

definition splitlines :: "string \<Rightarrow> string list" where
  "splitlines s = splitlines_from [] s"

text \<open>\<^verbatim>\<open>sep.join(xs)\<close>.\<close>

fun join :: "string \<Rightarrow> string list \<Rightarrow> string" where
  "join sep [] = []"
| "join sep [x] = x"
| "join sep (x # y # ys) = x @ sep @ join sep (y # ys)"

text \<open>\<^verbatim>\<open>p in s\<close> on strings.\<close>

fun contains :: "string \<Rightarrow> string \<Rightarrow> bool" where
  "contains [] p = (p = [])"
| "contains (c # cs) p = (prefix p (c # cs) \<or> contains cs p)"

section \<open>The regular expressions, as matchers\<close>

text \<open>
  Each pattern of the scripts is written as the matcher Python's backtracking engine runs.
  A matcher takes the text from the position it tries and returns the captured group, or
  \<open>None\<close> when the pattern does not match there.

  \<^verbatim>\<open>re.search\<close> with a pattern that starts with \<^verbatim>\<open>^\<close> under \<^verbatim>\<open>re.MULTILINE\<close>:
  the leftmost position that is the start of the text or follows a line feed, and where
  the rest of the pattern matches. The flag says whether the current position is such a
  start.
\<close>

fun search_bol :: "(string \<Rightarrow> 'a option) \<Rightarrow> bool \<Rightarrow> string \<Rightarrow> 'a option" where
  "search_bol m bol [] = (if bol then m [] else None)"
| "search_bol m bol (c # cs) =
     (case (if bol then m (c # cs) else None) of
        Some r \<Rightarrow> Some r
      | None \<Rightarrow> search_bol m (c = LF) cs)"

text \<open>A literal, then the rest of the pattern.\<close>

definition after_literal :: "string \<Rightarrow> (string \<Rightarrow> 'a option) \<Rightarrow> string \<Rightarrow> 'a option" where
  "after_literal lit k s = (if prefix lit s then k (drop (length lit) s) else None)"

text \<open>
  Greedy \<^verbatim>\<open>\s*\<close> before the rest \<open>k\<close> of the pattern: one more whitespace character is
  tried first, and given back when the rest fails after it.
\<close>

fun star_space_then :: "(string \<Rightarrow> 'a option) \<Rightarrow> string \<Rightarrow> 'a option" where
  "star_space_then k [] = k []"
| "star_space_then k (c # cs) =
     (if is_space c then
        (case star_space_then k cs of Some r \<Rightarrow> Some r | None \<Rightarrow> k (c # cs))
      else k (c # cs))"


text \<open>
  \<^verbatim>\<open>(.+)$\<close> under \<^verbatim>\<open>re.MULTILINE\<close>: the dot takes no line feed, and \<^verbatim>\<open>$\<close> holds at the
  end of the text and before a line feed, so the group is the non-empty rest of the line.
\<close>

definition value_to_eol :: "string \<Rightarrow> string option" where
  "value_to_eol s = (let g = takeWhile (\<lambda>c. c \<noteq> LF) s in if g = [] then None else Some g)"


text \<open>\<^verbatim>\<open>\d{4}-\d{2}-\d{2}\<close> on a whole string.\<close>

definition is_date :: "string \<Rightarrow> bool" where
  "is_date d =
     (length d = 10 \<and> list_all is_digit (take 4 d) \<and> d ! 4 = CHR ''-''
      \<and> list_all is_digit (take 2 (drop 5 d)) \<and> d ! 7 = CHR ''-''
      \<and> list_all is_digit (drop 8 d))"

text \<open>\<^verbatim>\<open>(\d{4}-\d{2}-\d{2})$\<close> under \<^verbatim>\<open>re.MULTILINE\<close>.\<close>

definition date_to_eol :: "string \<Rightarrow> string option" where
  "date_to_eol s =
     (if is_date (take 10 s) \<and> (case drop 10 s of [] \<Rightarrow> True | c # _ \<Rightarrow> c = LF)
      then Some (take 10 s) else None)"

text \<open>
  Lazy \<^verbatim>\<open>(?P<body>.*?)\<close> under \<^verbatim>\<open>re.DOTALL\<close> before the lookahead
  \<^verbatim>\<open>(?=^STOP|\Z)\<close>: the shortest body after which the text ends or a line starts with
  \<open>stop\<close>.
\<close>

fun lazy_until :: "string \<Rightarrow> bool \<Rightarrow> string \<Rightarrow> string" where
  "lazy_until stop bol [] = []"
| "lazy_until stop bol (c # cs) =
     (if bol \<and> prefix stop (c # cs) then [] else c # lazy_until stop (c = LF) cs)"

section \<open>check\_docs\_governance.py\<close>

text \<open>
  The files the script reads, relative to the repository root: the four documents it
  checks, the plan files under \<^verbatim>\<open>docs/plans/\<close> by the relative path a table cell gives,
  and whether the target of a roadmap link exists. A file is either absent or a readable
  text.
\<close>

record docs_env =
  roadmap_file :: "string option"
  changelog_file :: "string option"
  lifecycle_file :: "string option"
  template_file :: "string option"
  plan_file :: "string \<Rightarrow> string option"
  link_target_exists :: "string \<Rightarrow> bool"

definition LIFECYCLE_STATUSES :: "string list" where
  "LIFECYCLE_STATUSES = [''Active'', ''Superseded'', ''Archived'']"

definition REQUIRED_TEMPLATE_HEADINGS :: "string list" where
  "REQUIRED_TEMPLATE_HEADINGS =
     [''## Milestone'', ''## Release Summary'', ''### Added'', ''### Changed'',
      ''### Deprecated'', ''### Removed'', ''### Fixed'', ''### Security'']"

text \<open>
  \<^verbatim>\<open>read_text(path, errors)\<close>: the file's text, or the empty text and one more error.
  The error list is passed in and returned, as the script appends to it.
\<close>

definition read_text :: "string option \<Rightarrow> string \<Rightarrow> string list \<Rightarrow> string \<times> string list" where
  "read_text file rel errors =
     (case file of
        None \<Rightarrow> ([], errors @ [''Missing required file: '' @ rel])
      | Some t \<Rightarrow> (t, errors))"

text \<open>The pattern \<^verbatim>\<open>^## \[Unreleased\]\n(?P<body>.*?)(?=^## \[|\Z)\<close>.\<close>

definition unreleased_match :: "string \<Rightarrow> string option" where
  "unreleased_match changelog =
     search_bol (after_literal ''## [Unreleased]\<newline>'' (\<lambda>s. Some (lazy_until ''## ['' True s)))
       True changelog"

definition extract_unreleased :: "string \<Rightarrow> string list \<Rightarrow> string \<times> string list" where
  "extract_unreleased changelog errors =
     (case unreleased_match changelog of
        None \<Rightarrow> ([], errors @ [''CHANGELOG.md is missing a [Unreleased] section''])
      | Some body \<Rightarrow> (body, errors))"

text \<open>
  The patterns \<^verbatim>\<open>^\*\*Current Phase:\*\*\s*(.+)$\<close> and
  \<^verbatim>\<open>^\*\*Last Updated:\*\*\s*(\d{4}-\d{2}-\d{2})$\<close>.
\<close>

definition phase_match :: "string \<Rightarrow> string option" where
  "phase_match roadmap =
     search_bol (after_literal ''**Current Phase:**'' (star_space_then value_to_eol)) True roadmap"

definition date_match :: "string \<Rightarrow> string option" where
  "date_match roadmap =
     search_bol (after_literal ''**Last Updated:**'' (star_space_then date_to_eol)) True roadmap"

definition parse_roadmap_metadata :: "string \<Rightarrow> string list \<Rightarrow> (string \<times> string) \<times> string list" where
  "parse_roadmap_metadata roadmap errors =
     (let e1 = (if phase_match roadmap = None
                then errors @ [''Roadmap is missing '**Current Phase:**' metadata''] else errors);
          e2 = (if date_match roadmap = None
                then e1 @ [''Roadmap is missing '**Last Updated:**' metadata''] else e1)
      in (((case phase_match roadmap of Some g \<Rightarrow> strip g | None \<Rightarrow> []),
           (case date_match roadmap of Some g \<Rightarrow> strip g | None \<Rightarrow> [])), e2))"

text \<open>
  The pattern \<^verbatim>\<open>\((\.\./plans/[^)]+\.md)\)\<close> at one position: its group. The run of
  characters other than the closing parenthesis must end with \<^verbatim>\<open>.md\<close> after at least one
  more character, and the parenthesis must follow it.
\<close>

definition link_at :: "string \<Rightarrow> string option" where
  "link_at s =
     (case s of
        [] \<Rightarrow> None
      | c # r \<Rightarrow>
          if c = CHR ''('' \<and> prefix ''../plans/'' r then
            (let r' = drop (length ''../plans/'') r;
                 run = takeWhile (\<lambda>x. x \<noteq> CHR '')'') r';
                 rest = dropWhile (\<lambda>x. x \<noteq> CHR '')'') r'
             in if rest \<noteq> [] \<and> 3 < length run \<and> drop (length run - 3) run = ''.md''
                then Some (''../plans/'' @ run) else None)
          else None)"

text \<open>
  \<^verbatim>\<open>re.findall\<close>: the matches from left to right, without overlap. \<open>skip\<close> counts the
  characters of the last match that are still to be passed.
\<close>

fun findall_links :: "nat \<Rightarrow> string \<Rightarrow> string list" where
  "findall_links skip [] = []"
| "findall_links skip (c # cs) =
     (if 0 < skip then findall_links (skip - 1) cs
      else (case link_at (c # cs) of
              Some g \<Rightarrow> g # findall_links (length g + 1) cs
            | None \<Rightarrow> findall_links 0 cs))"

fun link_errors :: "(string \<Rightarrow> bool) \<Rightarrow> string list \<Rightarrow> string list \<Rightarrow> string list" where
  "link_errors ex [] errors = errors"
| "link_errors ex (rel # rels) errors =
     link_errors ex rels
       (if ex rel then errors else errors @ [''Roadmap link target does not exist: '' @ rel])"

definition validate_roadmap_links :: "docs_env \<Rightarrow> string \<Rightarrow> string list \<Rightarrow> string list" where
  "validate_roadmap_links env roadmap errors =
     link_errors (link_target_exists env) (sort (remdups (findall_links 0 roadmap))) errors"

text \<open>
  The pattern \<^verbatim>\<open>^### Roadmap Alignment\n(?P<body>.*?)(?=^### |\Z)\<close>, and inside the block
  \<^verbatim>\<open>^- Current roadmap phase:\s*(.+)$\<close> and
  \<^verbatim>\<open>^- Roadmap last updated:\s*(\d{4}-\d{2}-\d{2})$\<close>.
\<close>

definition block_match :: "string \<Rightarrow> string option" where
  "block_match unreleased =
     search_bol (after_literal ''### Roadmap Alignment\<newline>'' (\<lambda>s. Some (lazy_until ''### '' True s)))
       True unreleased"

definition block_phase_match :: "string \<Rightarrow> string option" where
  "block_phase_match block =
     search_bol (after_literal ''- Current roadmap phase:'' (star_space_then value_to_eol)) True block"

definition block_updated_match :: "string \<Rightarrow> string option" where
  "block_updated_match block =
     search_bol (after_literal ''- Roadmap last updated:'' (star_space_then date_to_eol)) True block"

definition phase_mismatch :: "string \<Rightarrow> string \<Rightarrow> string" where
  "phase_mismatch roadmap_phase found =
     ''Roadmap/Changelog phase mismatch: '' @ ''roadmap='' @ sq @ roadmap_phase @ sq
       @ '', changelog='' @ sq @ found @ sq"

definition updated_mismatch :: "string \<Rightarrow> string \<Rightarrow> string" where
  "updated_mismatch roadmap_last_updated found =
     ''Roadmap/Changelog last-updated mismatch: '' @ ''roadmap='' @ sq @ roadmap_last_updated @ sq
       @ '', changelog='' @ sq @ found @ sq"

definition validate_roadmap_alignment_block ::
    "string \<Rightarrow> string \<Rightarrow> string \<Rightarrow> string list \<Rightarrow> string list" where
  "validate_roadmap_alignment_block roadmap_phase roadmap_last_updated unreleased errors =
     (case block_match unreleased of
        None \<Rightarrow> errors @ [''CHANGELOG [Unreleased] is missing '### Roadmap Alignment' block'']
      | Some block \<Rightarrow>
          (let pm = block_phase_match block;
               um = block_updated_match block;
               e1 = (if pm = None
                     then errors @ [''Roadmap Alignment block missing '- Current roadmap phase:'' @ sq]
                     else errors);
               e2 = (if um = None
                     then e1 @ [''Roadmap Alignment block missing '- Roadmap last updated:'' @ sq]
                     else e1);
               e3 = (case pm of
                       None \<Rightarrow> e2
                     | Some g \<Rightarrow> if strip g \<noteq> roadmap_phase
                                then e2 @ [phase_mismatch roadmap_phase (strip g)] else e2);
               e4 = (case um of
                       None \<Rightarrow> e3
                     | Some g \<Rightarrow> if strip g \<noteq> roadmap_last_updated
                                then e3 @ [updated_mismatch roadmap_last_updated (strip g)] else e3)
           in e4))"

text \<open>
  \<^verbatim>\<open>parse_table_rows\<close>. \<open>row_cells\<close> is the list comprehension on the stripped line,
  \<open>dash_only\<close> is \<^verbatim>\<open>set(cells[0]) == {"-"}\<close>, and \<open>keep_row\<close> is the rest of the loop body:
  the row the line adds, or \<open>None\<close> when the line is passed over.
\<close>

definition row_cells :: "string \<Rightarrow> string list" where
  "row_cells line = map strip (split_on (CHR ''|'') (strip_char (CHR ''|'') line))"

definition dash_only :: "string \<Rightarrow> bool" where
  "dash_only cell = (cell \<noteq> [] \<and> list_all (\<lambda>c. c = CHR ''-'') cell)"

definition keep_row :: "string list \<Rightarrow> string list option" where
  "keep_row cells =
     (if length cells < 4 then None
      else (case cells of
              [] \<Rightarrow> None
            | c0 # _ \<Rightarrow> if c0 = ''Plan'' \<or> dash_only c0 then None else Some (take 4 cells)))"

fun table_rows_loop :: "string list \<Rightarrow> string list list \<Rightarrow> string list list" where
  "table_rows_loop [] rows = rows"
| "table_rows_loop (raw # raws) rows =
     (let line = strip raw in
        if \<not> prefix ''|'' line then table_rows_loop raws rows
        else (case keep_row (row_cells line) of
                None \<Rightarrow> table_rows_loop raws rows
              | Some row \<Rightarrow> table_rows_loop raws (rows @ [row])))"

definition parse_table_rows :: "string \<Rightarrow> string list list" where
  "parse_table_rows markdown = table_rows_loop (splitlines markdown) []"

text \<open>\<^verbatim>\<open>parse_code_path\<close>; \<open>cell[1:-1]\<close> drops the first and the last character.\<close>

definition parse_code_path :: "string \<Rightarrow> string option" where
  "parse_code_path cell0 =
     (let cell = strip cell0 in
        if cell = ''-'' then Some ''-''
        else if prefix [CHR 0x60] cell \<and> suffix [CHR 0x60] cell then Some (butlast (tl cell))
        else None)"

text \<open>
  One turn of the loop of \<^verbatim>\<open>validate_plan_lifecycle\<close> on the unpacked row: the error
  list and \<^verbatim>\<open>superseded_count\<close> before and after. A \<^verbatim>\<open>continue\<close> is the end of its
  branch.
\<close>

definition lifecycle_row ::
    "(string \<Rightarrow> string option) \<Rightarrow> string \<Rightarrow> string \<Rightarrow> string \<Rightarrow> string list \<times> nat \<Rightarrow> string list \<times> nat" where
  "lifecycle_row plans plan_cell status superseded_by_cell st =
     (let (errors, superseded_count) = st in
      case parse_code_path plan_cell of
        None \<Rightarrow> (errors @ [''Invalid plan path cell in PLAN_LIFECYCLE.md: '' @ plan_cell], superseded_count)
      | Some plan_rel \<Rightarrow>
          if plan_rel = [] \<or> plan_rel = ''-'' then
            (errors @ [''Invalid plan path cell in PLAN_LIFECYCLE.md: '' @ plan_cell], superseded_count)
          else
            (let e1 = (if status \<notin> set LIFECYCLE_STATUSES
                       then errors @ [''Invalid lifecycle status '' @ sq @ status @ sq @ '' for plan ''
                                        @ sq @ plan_rel @ sq @ '' '' @ ''(allowed: ''
                                        @ join '', '' (sort LIFECYCLE_STATUSES) @ '')'']
                       else errors)
             in case plans plan_rel of
                  None \<Rightarrow>
                    (e1 @ [''Lifecycle entry references missing file: docs/plans/'' @ plan_rel],
                     superseded_count)
                | Some plan_text \<Rightarrow>
                    if status = ''Superseded'' then
                      (let e2 = (if \<not> contains plan_text ''**Lifecycle:** Superseded''
                                 then e1 @ [''Superseded plan missing lifecycle marker: docs/plans/'' @ plan_rel]
                                 else e1);
                           undefined_target =
                             (e2 @ [''Superseded plan must define 'Superseded By' target: docs/plans/''
                                      @ plan_rel],
                              superseded_count + 1)
                       in case parse_code_path superseded_by_cell of
                            None \<Rightarrow> undefined_target
                          | Some superseded_rel \<Rightarrow>
                              if superseded_rel = [] \<or> superseded_rel = ''-'' then undefined_target
                              else
                                (let e3 = (if plans superseded_rel = None
                                           then e2 @ [''Superseded target does not exist: docs/plans/''
                                                        @ superseded_rel]
                                           else e2);
                                     e4 = (if \<not> contains plan_text superseded_rel
                                           then e3 @ [''Superseded source missing explicit target reference ''
                                                        @ sq @ superseded_rel @ sq @ '': ''
                                                        @ ''docs/plans/'' @ plan_rel]
                                           else e3)
                                 in (e4, superseded_count + 1)))
                    else if status = ''Active'' \<and> \<not> contains plan_text ''**Lifecycle:** Active'' then
                      (e1 @ [''Active plan missing lifecycle marker: docs/plans/'' @ plan_rel],
                       superseded_count)
                    else (e1, superseded_count)))"

text \<open>
  The loop. The \<^verbatim>\<open>for\<close> statement unpacks each row into four names, which raises
  \<^verbatim>\<open>ValueError\<close> on a row of another length: the result \<open>None\<close>.
\<close>

fun lifecycle_loop ::
    "(string \<Rightarrow> string option) \<Rightarrow> string list list \<Rightarrow> string list \<times> nat \<Rightarrow> (string list \<times> nat) option" where
  "lifecycle_loop plans [] st = Some st"
| "lifecycle_loop plans (row # rows) st =
     (case row of
        [plan_cell, status, superseded_by_cell, notes] \<Rightarrow>
          lifecycle_loop plans rows (lifecycle_row plans plan_cell status superseded_by_cell st)
      | _ \<Rightarrow> None)"

definition validate_plan_lifecycle :: "docs_env \<Rightarrow> string list \<Rightarrow> string list option" where
  "validate_plan_lifecycle env errors0 =
     (let (lifecycle, errors) = read_text (lifecycle_file env) ''docs/plans/PLAN_LIFECYCLE.md'' errors0 in
        if lifecycle = [] then Some errors
        else
          (let rows = parse_table_rows lifecycle in
             if rows = [] then
               Some (errors @ [''PLAN_LIFECYCLE.md must define at least one lifecycle row''])
             else
               (case lifecycle_loop (plan_file env) rows (errors, 0) of
                  None \<Rightarrow> None
                | Some (errors', superseded_count) \<Rightarrow>
                    if superseded_count = 0 then
                      Some (errors' @ [''PLAN_LIFECYCLE.md should include at least one Superseded entry''])
                    else Some errors')))"

fun template_loop :: "string \<Rightarrow> string list \<Rightarrow> string list \<Rightarrow> string list" where
  "template_loop template [] errors = errors"
| "template_loop template (heading # headings) errors =
     template_loop template headings
       (if \<not> contains template heading
        then errors @ [''Release notes template missing required heading '' @ sq @ heading @ sq]
        else errors)"

definition validate_release_template :: "docs_env \<Rightarrow> string list \<Rightarrow> string list" where
  "validate_release_template env errors0 =
     (let (template, errors) =
            read_text (template_file env) ''docs/project/RELEASE_NOTES_TEMPLATE.md'' errors0 in
        if template = [] then errors else template_loop template REQUIRED_TEMPLATE_HEADINGS errors)"

text \<open>
  \<^verbatim>\<open>main\<close> up to the report: the error list it has collected, or \<open>None\<close> when the run
  stops on an exception. \<open>check_main\<close> is the exit status and the printed lines.
\<close>

definition check_errors :: "docs_env \<Rightarrow> string list option" where
  "check_errors env =
     (let (roadmap, e1) = read_text (roadmap_file env) ''docs/project/roadmap.md'' [];
          (changelog, e2) = read_text (changelog_file env) ''CHANGELOG.md'' e1;
          e3 = (if roadmap \<noteq> [] then validate_roadmap_links env roadmap e2 else e2);
          e4 = (if roadmap \<noteq> [] \<and> changelog \<noteq> [] then
                  (let ((roadmap_phase, roadmap_last_updated), e5) = parse_roadmap_metadata roadmap e3;
                       (unreleased, e6) = extract_unreleased changelog e5
                   in if roadmap_phase \<noteq> [] \<and> roadmap_last_updated \<noteq> [] \<and> unreleased \<noteq> []
                      then validate_roadmap_alignment_block roadmap_phase roadmap_last_updated unreleased e6
                      else e6)
                else e3)
      in case validate_plan_lifecycle env e4 of
           None \<Rightarrow> None
         | Some e7 \<Rightarrow> Some (validate_release_template env e7))"


section \<open>generate\_release\_notes.py\<close>

text \<open>
  The exceptions of the generator, with their messages. \<^verbatim>\<open>ValueError\<close> stands for its
  subclasses too (\<^verbatim>\<open>UnicodeDecodeError\<close>, \<^verbatim>\<open>UnicodeEncodeError\<close>), and \<^verbatim>\<open>OSError\<close> for
  the errors of the operating system other than \<^verbatim>\<open>FileNotFoundError\<close>. \<^verbatim>\<open>main\<close> catches
  \<^verbatim>\<open>FileNotFoundError\<close> and \<^verbatim>\<open>ValueError\<close>; a \<^verbatim>\<open>KeyError\<close> from a dictionary lookup or
  another \<^verbatim>\<open>OSError\<close> would leave it.
\<close>

datatype py_exn =
  FileNotFoundError string | ValueError string | KeyError string | OSError string



text \<open>
  What a run meets in the file system, by the path as \<^verbatim>\<open>pathlib\<close> prints it; an
  argument reaches the file system only through that string, so two spellings that print
  alike name one file. For reading: there is no file (\<^verbatim>\<open>exists()\<close> is false), or
  \<^verbatim>\<open>Path.read_text\<close> returns a text, or it raises (a \<^verbatim>\<open>ValueError\<close> for bytes that are
  not UTF-8, an \<^verbatim>\<open>OSError\<close> for a directory or a file that may not be read). For
  writing: opening the file to write it creates or empties it, or it raises and changes
  nothing (\<^verbatim>\<open>FileNotFoundError\<close> when the directory of the path is missing, another
  \<^verbatim>\<open>OSError\<close> otherwise).
\<close>

datatype read_result = Missing | Content string | ReadRaises py_exn



























section \<open>Notions the properties are stated with\<close>

text \<open>
  A text as its lines, each with the line feed that ends it (the last line may have
  none): \<open>first_line\<close> is the text up to and with the first line feed, \<open>rest_lines\<close>
  what follows it.
\<close>

definition first_line :: "string \<Rightarrow> string" where
  "first_line s = takeWhile (\<lambda>c. c \<noteq> LF) s @ take 1 (dropWhile (\<lambda>c. c \<noteq> LF) s)"

definition rest_lines :: "string \<Rightarrow> string" where
  "rest_lines s = drop 1 (dropWhile (\<lambda>c. c \<noteq> LF) s)"

function text_lines :: "string \<Rightarrow> string list" where
  "text_lines s = (if s = [] then [] else first_line s # text_lines (rest_lines s))"
  by pat_completeness auto
termination
proof (relation "measure length")
  show "wf (measure length)" by simp
next
  fix s :: string
  assume "s \<noteq> []"
  then have "length (rest_lines s) < length s"
    unfolding rest_lines_def
    by (cases s) (auto simp: less_Suc_eq_le length_dropWhile_le intro: le_trans [OF diff_le_self])
  then show "(rest_lines s, s) \<in> measure length" by simp
qed

declare text_lines.simps [simp del]

text \<open>
  The section of a text on the level of lines: after the first line that is exactly the
  heading, the lines up to the first one that begins with \<open>stop\<close>, or all of them.
\<close>

definition section_after :: "string \<Rightarrow> string \<Rightarrow> string \<Rightarrow> string option" where
  "section_after heading stop text =
     (case dropWhile (\<lambda>l. l \<noteq> heading @ [LF]) (text_lines text) of
        [] \<Rightarrow> None
      | _ # ls \<Rightarrow> Some (concat (takeWhile (\<lambda>l. \<not> prefix stop l) ls)))"

text \<open>
  The section as the specification words it: the rank of a heading is the number of its
  leading \<^verbatim>\<open>#\<close> characters, and the body ends before the next heading whose rank is at
  most the given one.
\<close>

definition heading_rank :: "string \<Rightarrow> nat" where
  "heading_rank l = length (takeWhile (\<lambda>c. c = CHR ''#'') l)"

definition spec_section_after :: "nat \<Rightarrow> string \<Rightarrow> string \<Rightarrow> string option" where
  "spec_section_after rank heading text =
     (case dropWhile (\<lambda>l. l \<noteq> heading @ [LF]) (text_lines text) of
        [] \<Rightarrow> None
      | _ # ls \<Rightarrow>
          Some (concat (takeWhile (\<lambda>l. \<not> (1 \<le> heading_rank l \<and> heading_rank l \<le> rank)) ls)))"

text \<open>
  The three tests of \<^verbatim>\<open>parse_table_rows\<close> on the cells of a line, and the tests as the
  specification words them (the third one over all the cells).
\<close>

definition row_rejected :: "string list \<Rightarrow> bool" where
  "row_rejected cells =
     (length cells < 4 \<or> (case cells of [] \<Rightarrow> True | c0 # _ \<Rightarrow> c0 = ''Plan'' \<or> dash_only c0))"

definition spec_row_rejected :: "string list \<Rightarrow> bool" where
  "spec_row_rejected cells =
     (length cells < 4 \<or> (case cells of [] \<Rightarrow> True | c0 # _ \<Rightarrow> c0 = ''Plan'')
      \<or> list_all (\<lambda>c. c = CHR ''-'') (concat cells))"

text \<open>What one line of the table adds: the body of the loop of \<^verbatim>\<open>parse_table_rows\<close>.\<close>

definition table_line :: "string \<Rightarrow> string list option" where
  "table_line raw =
     (let line = strip raw in if prefix ''|'' line then keep_row (row_cells line) else None)"

text \<open>
  A row that reaches the count of \<^verbatim>\<open>validate_plan_lifecycle\<close>, and the errors one row
  adds.
\<close>

definition row_counted :: "(string \<Rightarrow> string option) \<Rightarrow> string list \<Rightarrow> bool" where
  "row_counted plans row =
     (case row of
        [plan_cell, status, superseded_by_cell, notes] \<Rightarrow>
          status = ''Superseded'' \<and>
          (case parse_code_path plan_cell of
             None \<Rightarrow> False
           | Some plan_rel \<Rightarrow> plan_rel \<noteq> [] \<and> plan_rel \<noteq> ''-'' \<and> plans plan_rel \<noteq> None)
      | _ \<Rightarrow> False)"

definition row_errors :: "(string \<Rightarrow> string option) \<Rightarrow> string list \<Rightarrow> string list" where
  "row_errors plans row =
     (case row of
        [plan_cell, status, superseded_by_cell, notes] \<Rightarrow>
          fst (lifecycle_row plans plan_cell status superseded_by_cell ([], 0))
      | _ \<Rightarrow> [])"

text \<open>The first letter of every error message of a row.\<close>

definition row_message :: "string \<Rightarrow> bool" where
  "row_message m =
     (case m of
        [] \<Rightarrow> False
      | c # _ \<Rightarrow> c = CHR ''I'' \<or> c = CHR ''L'' \<or> c = CHR ''S'' \<or> c = CHR ''A'')"

text \<open>The cells of the lines of a text that begin with the pipe character.\<close>

definition table_cells :: "string \<Rightarrow> string list list" where
  "table_cells markdown = map row_cells (filter (prefix ''|'') (map strip (splitlines markdown)))"









text \<open>
  The Last Updated field on the level of lines, as the specification words it: the value
  of a line that begins with the label is the rest of that line without leading
  whitespace, a value that is not exactly a date counts as no value, and the field is the
  value of the first line that has one.
\<close>

fun first_match :: "('a \<Rightarrow> 'b option) \<Rightarrow> 'a list \<Rightarrow> 'b option" where
  "first_match f [] = None"
| "first_match f (x # xs) = (case f x of Some r \<Rightarrow> Some r | None \<Rightarrow> first_match f xs)"

definition line_value :: "string \<Rightarrow> string \<Rightarrow> string option" where
  "line_value label l =
     (if prefix label l
      then Some (lstrip (takeWhile (\<lambda>c. c \<noteq> LF) (drop (length label) l)))
      else None)"

definition date_line_value :: "string \<Rightarrow> string option" where
  "date_line_value l =
     (case line_value ''**Last Updated:**'' l of
        None \<Rightarrow> None
      | Some v \<Rightarrow> if is_date v then Some v else None)"

definition spec_date_value :: "string \<Rightarrow> string option" where
  "spec_date_value roadmap = first_match date_line_value (text_lines roadmap)"

text \<open>
  The errors of the alignment check, told by how their messages begin; and the three
  texts \<^verbatim>\<open>main\<close> looks at before it runs the check, when it gets that far.
\<close>

definition is_alignment_error :: "string \<Rightarrow> bool" where
  "is_alignment_error m =
     (prefix ''CHANGELOG [Unreleased]'' m \<or> prefix ''Roadmap Alignment block'' m
      \<or> prefix ''Roadmap/Changelog'' m)"

definition alignment_inputs :: "docs_env \<Rightarrow> (string \<times> string \<times> string) option" where
  "alignment_inputs env =
     (case (roadmap_file env, changelog_file env) of
        (Some roadmap, Some changelog) \<Rightarrow>
          if roadmap \<noteq> [] \<and> changelog \<noteq> [] then
            Some (fst (fst (parse_roadmap_metadata roadmap [])),
                  snd (fst (parse_roadmap_metadata roadmap [])),
                  fst (extract_unreleased changelog []))
          else None
      | _ \<Rightarrow> None)"

abbreviation other_errors :: "string list \<Rightarrow> bool" where
  "other_errors errors \<equiv> list_all (\<lambda>m. \<not> is_alignment_error m) errors"

section \<open>Properties\<close>

subsection \<open>Sections of a text, line by line\<close>

lemma first_rest_id: "first_line s @ rest_lines s = s"
  by (simp add: first_line_def rest_lines_def)

lemma first_line_Cons: "first_line (c # cs) = (if c = LF then [LF] else c # first_line cs)"
  by (simp add: first_line_def)

lemma rest_lines_Cons: "rest_lines (c # cs) = (if c = LF then cs else rest_lines cs)"
  by (simp add: rest_lines_def)

lemma first_line_Nil: "first_line [] = []"
  by (simp add: first_line_def)
lemma rest_lines_Nil: "rest_lines [] = []"
  by (simp add: rest_lines_def)

lemma concat_text_lines: "concat (text_lines s) = s"
  by (induction s rule: text_lines.induct) (subst text_lines.simps, simp add: first_rest_id)

lemma lazy_until_mid: "lazy_until stop False s = first_line s @ lazy_until stop True (rest_lines s)"
  by (induction s) (simp_all add: first_line_Cons rest_lines_Cons first_line_Nil rest_lines_Nil)

lemma takeWhile_no_LF: "LF \<notin> set p \<Longrightarrow> takeWhile (\<lambda>c. c \<noteq> LF) (p @ r) = p @ takeWhile (\<lambda>c. c \<noteq> LF) r"
  by (induction p) auto

lemma dropWhile_no_LF: "LF \<notin> set p \<Longrightarrow> dropWhile (\<lambda>c. c \<noteq> LF) (p @ r) = dropWhile (\<lambda>c. c \<noteq> LF) r"
  by (induction p) auto

lemma prefix_first_line:
  assumes "LF \<notin> set p"
  shows "prefix p (first_line s) \<longleftrightarrow> prefix p s"
proof
  assume "prefix p (first_line s)"
  then show "prefix p s" by (metis first_rest_id prefix_prefix)
next
  assume "prefix p s"
  then obtain r where s: "s = p @ r" by (auto simp: prefix_def)
  show "prefix p (first_line s)"
    using assms unfolding s by (simp add: first_line_def takeWhile_no_LF)
qed

lemma lazy_until_line:
  assumes "s \<noteq> []" and "\<not> prefix stop s"
  shows "lazy_until stop True s = first_line s @ lazy_until stop True (rest_lines s)"
proof (cases s)
  case Nil with assms show ?thesis by simp
next
  case (Cons c cs)
  with assms show ?thesis
    by (simp add: first_line_Cons rest_lines_Cons lazy_until_mid)
qed

lemma lazy_until_stop: "prefix stop s \<Longrightarrow> lazy_until stop True s = []"
  by (cases s) simp_all

lemma lazy_until_lines:
  assumes "LF \<notin> set stop"
  shows "lazy_until stop True s = concat (takeWhile (\<lambda>l. \<not> prefix stop l) (text_lines s))"
proof (induction s rule: text_lines.induct)
  case (1 s)
  show ?case
  proof (cases "s = []")
    case True
    then show ?thesis by (simp add: text_lines.simps [of "[]"])
  next
    case False
    show ?thesis
    proof (cases "prefix stop s")
      case True
      then show ?thesis
        using False assms
        by (subst text_lines.simps) (simp add: lazy_until_stop prefix_first_line)
    next
      case np: False
      then show ?thesis
        using False assms 1
        by (subst text_lines.simps) (simp add: lazy_until_line prefix_first_line)
    qed
  qed
qed

lemma search_bol_mid:
  assumes "m [] = None"
  shows "search_bol m False s = search_bol m True (rest_lines s)"
  using assms by (induction s) (simp_all add: rest_lines_Cons rest_lines_Nil)

lemma search_bol_skip_line:
  assumes "m [] = None" and "m s = None"
  shows "search_bol m True s = search_bol m True (rest_lines s)"
proof (cases s)
  case Nil then show ?thesis by (simp add: rest_lines_Nil)
next
  case (Cons c cs)
  then show ?thesis using assms
    by (simp add: rest_lines_Cons search_bol_mid)
qed

lemma search_bol_hit: "m s = Some r \<Longrightarrow> search_bol m True s = Some r"
  by (cases s) simp_all

lemma heading_line_prefix:
  assumes "LF \<notin> set h"
  shows "prefix (h @ [LF]) s \<longleftrightarrow> first_line s = h @ [LF]"
proof
  assume "prefix (h @ [LF]) s"
  then obtain r where s: "s = (h @ [LF]) @ r" by (auto simp: prefix_def)
  show "first_line s = h @ [LF]"
    using assms unfolding s first_line_def
    by (simp add: takeWhile_no_LF dropWhile_no_LF)
next
  assume "first_line s = h @ [LF]"
  then show "prefix (h @ [LF]) s" by (metis first_rest_id prefixI)
qed

lemma heading_line_drop:
  assumes "first_line s = h @ [LF]"
  shows "drop (length (h @ [LF])) s = rest_lines s"
  by (metis assms first_rest_id append_eq_conv_conj)

lemma search_heading_lines:
  assumes "LF \<notin> set h" and "\<And>t. f t = F (text_lines t)"
  shows "search_bol (after_literal (h @ [LF]) (\<lambda>t. Some (f t))) True s =
           (case dropWhile (\<lambda>l. l \<noteq> h @ [LF]) (text_lines s) of
              [] \<Rightarrow> None
            | _ # ls \<Rightarrow> Some (F ls))"
proof (induction s rule: text_lines.induct)
  case (1 s)
  let ?m = "after_literal (h @ [LF]) (\<lambda>t. Some (f t))"
  have m0: "?m [] = None" by (simp add: after_literal_def)
  show ?case
  proof (cases "s = []")
    case True
    then show ?thesis using m0 by (simp add: text_lines.simps [of "[]"])
  next
    case False
    show ?thesis
    proof (cases "first_line s = h @ [LF]")
      case True
      then have "?m s = Some (f (rest_lines s))"
        using heading_line_prefix [OF assms(1), of s] heading_line_drop [OF True]
        by (simp add: after_literal_def)
      then have "search_bol ?m True s = Some (f (rest_lines s))"
        by (rule search_bol_hit)
      then show ?thesis
        using False True assms(2)
        by (subst text_lines.simps) simp
    next
      case nh: False
      then have "?m s = None"
        using heading_line_prefix [OF assms(1), of s] by (simp add: after_literal_def)
      then have "search_bol ?m True s = search_bol ?m True (rest_lines s)"
        using m0 by (rule search_bol_skip_line [rotated])
      then show ?thesis
        using False nh 1
        by (subst text_lines.simps) simp
    qed
  qed
qed

lemma section_match_lines:
  assumes "LF \<notin> set h" and "LF \<notin> set stop"
  shows "search_bol (after_literal (h @ [LF]) (\<lambda>s. Some (lazy_until stop True s))) True text
           = section_after h stop text"
  unfolding section_after_def
  by (rule search_heading_lines [OF assms(1)]) (rule lazy_until_lines [OF assms(2)])

text \<open>
  Claim C2, as the code has it. The body of a section starts right after the first line
  that is exactly the heading and ends before the next line that begins with the stop
  text of its pattern, or at the end of the text: \<^verbatim>\<open>## [\<close> for the Unreleased section of
  the changelog and \<^verbatim>\<open>### \<close> for the Roadmap Alignment block inside it. The rank of other
  headings plays no part.
\<close>

theorem section_body_lines:
  "extract_unreleased changelog errors =
     (case section_after ''## [Unreleased]'' ''## ['' changelog of
        None \<Rightarrow> ([], errors @ [''CHANGELOG.md is missing a [Unreleased] section''])
      | Some body \<Rightarrow> (body, errors))
   \<and> block_match unreleased = section_after ''### Roadmap Alignment'' ''### '' unreleased"
proof -
  have a: "unreleased_match changelog = section_after ''## [Unreleased]'' ''## ['' changelog"
    using section_match_lines [of "''## [Unreleased]''" "''## [''" changelog]
    by (simp add: unreleased_match_def)
  have b: "block_match unreleased = section_after ''### Roadmap Alignment'' ''### '' unreleased"
    using section_match_lines [of "''### Roadmap Alignment''" "''### ''" unreleased]
    by (simp add: block_match_def)
  show ?thesis using a b by (simp add: extract_unreleased_def)
qed

text \<open>An Unreleased section and an alignment block, each ended by its stop line.\<close>

theorem section_body_lines_witness:
  "extract_unreleased ''# Changelog\<newline>\<newline>## [Unreleased]\<newline>### Added\<newline>- a\<newline>\<newline>## [1.0.0]\<newline>- c\<newline>'' []
     = (''### Added\<newline>- a\<newline>\<newline>'', [])
   \<and> block_match ''\<newline>### Roadmap Alignment\<newline>- Current roadmap phase: M3\<newline>\<newline>### Added\<newline>- a\<newline>''
     = Some ''- Current roadmap phase: M3\<newline>\<newline>''"
proof -
  have a: "section_after ''## [Unreleased]'' ''## [''
            ''# Changelog\<newline>\<newline>## [Unreleased]\<newline>### Added\<newline>- a\<newline>\<newline>## [1.0.0]\<newline>- c\<newline>''
           = Some ''### Added\<newline>- a\<newline>\<newline>''"
    by code_simp
  have b: "section_after ''### Roadmap Alignment'' ''### ''
            ''\<newline>### Roadmap Alignment\<newline>- Current roadmap phase: M3\<newline>\<newline>### Added\<newline>- a\<newline>''
           = Some ''- Current roadmap phase: M3\<newline>\<newline>''"
    by code_simp
  show ?thesis
    using section_body_lines
      [of "''# Changelog\<newline>\<newline>## [Unreleased]\<newline>### Added\<newline>- a\<newline>\<newline>## [1.0.0]\<newline>- c\<newline>''" "[]"
          "''\<newline>### Roadmap Alignment\<newline>- Current roadmap phase: M3\<newline>\<newline>### Added\<newline>- a\<newline>''"]
    by (simp add: a b)
qed

text \<open>
  The claim as worded fails: the line \<^verbatim>\<open>## Notes\<close> is a heading of the rank of
  \<^verbatim>\<open>## [Unreleased]\<close>, and the body runs over it.
\<close>

theorem section_rank_counterexample:
  "extract_unreleased ''# Changelog\<newline>## [Unreleased]\<newline>- a\<newline>## Notes\<newline>- b\<newline>## [1.0.0]\<newline>- c\<newline>'' []
     = (''- a\<newline>## Notes\<newline>- b\<newline>'', [])
   \<and> spec_section_after 2 ''## [Unreleased]''
       ''# Changelog\<newline>## [Unreleased]\<newline>- a\<newline>## Notes\<newline>- b\<newline>## [1.0.0]\<newline>- c\<newline>''
     = Some ''- a\<newline>''"
  by code_simp

subsection \<open>The table parser\<close>

lemma keep_row_rejected: "keep_row cells = (if row_rejected cells then None else Some (take 4 cells))"
  by (auto simp: keep_row_def row_rejected_def split: list.splits)

lemma table_rows_loop_map_filter:
  "table_rows_loop raws rows = rows @ List.map_filter table_line raws"
  by (induction raws arbitrary: rows)
     (auto simp: table_line_def Let_def List.map_filter_simps split: option.splits)

lemma map_filter_table_line:
  "List.map_filter table_line raws =
     map (take 4) (filter (\<lambda>cells. \<not> row_rejected cells)
       (map row_cells (filter (prefix ''|'') (map strip raws))))"
  by (induction raws)
     (auto simp: table_line_def Let_def List.map_filter_simps keep_row_rejected)

lemma parse_table_rows_filter:
  "parse_table_rows markdown =
     map (take 4) (filter (\<lambda>cells. \<not> row_rejected cells)
       (map row_cells (filter (prefix ''|'') (map strip (splitlines markdown)))))"
  by (simp add: parse_table_rows_def table_rows_loop_map_filter map_filter_table_line)

lemma splitlines_from_line:
  assumes "list_all (\<lambda>c. \<not> is_linebreak c) l"
  shows "splitlines_from cur (l @ LF # rest) = (cur @ l) # splitlines_from [] rest"
  using assms
proof (induction l arbitrary: cur)
  case Nil
  then show ?case by (simp add: is_linebreak_def)
next
  case (Cons c l)
  then have "c \<noteq> CR" "\<not> is_linebreak c" by (auto simp: is_linebreak_def)
  then show ?case using Cons by simp
qed

lemma splitlines_unlines:
  assumes "list_all (list_all (\<lambda>c. \<not> is_linebreak c)) ls"
  shows "splitlines (concat (map (\<lambda>l. l @ [LF]) ls)) = ls"
  using assms unfolding splitlines_def
  by (induction ls) (simp_all add: splitlines_from_line)

lemma parse_table_rows_table:
  assumes "list_all (list_all (\<lambda>c. \<not> is_linebreak c)) (header # separator # data)"
    and "table_line header = None" and "table_line separator = None"
    and "list_all (\<lambda>d. prefix ''|'' (strip d) \<and> \<not> row_rejected (row_cells (strip d))) data"
  shows "parse_table_rows (concat (map (\<lambda>l. l @ [LF]) (header # separator # data)))
           = map (\<lambda>d. take 4 (row_cells (strip d))) data"
proof -
  have "List.map_filter table_line data = map (\<lambda>d. take 4 (row_cells (strip d))) data"
    using assms(4)
    by (induction data) (auto simp: List.map_filter_simps table_line_def keep_row_rejected)
  then show ?thesis
    using assms(2,3)
    unfolding parse_table_rows_def splitlines_unlines [OF assms(1)]
    by (simp add: table_rows_loop_map_filter List.map_filter_simps)
qed

lemma parse_table_rows_length:
  "row \<in> set (parse_table_rows markdown) \<Longrightarrow> length row = 4"
  by (auto simp: parse_table_rows_filter row_rejected_def)

lemma split_from_not_Nil: "split_from d cur s \<noteq> []"
  by (induction s arbitrary: cur) auto

lemma row_cells_not_Nil: "row_cells line \<noteq> []"
  by (simp add: row_cells_def split_on_def split_from_not_Nil)

lemma table_line_header:
  assumes "prefix ''|'' (strip l)" and "hd (row_cells (strip l)) = ''Plan'' \<or> dash_only (hd (row_cells (strip l)))"
  shows "table_line l = None"
  using assms row_cells_not_Nil [of "strip l"]
  by (cases "row_cells (strip l)") (auto simp: table_line_def keep_row_def)

text \<open>
  Claim C4, as the code has it. \<^verbatim>\<open>parse_table_rows\<close> yields, in the order of the text, the
  first four cells of every line that begins with the pipe character and passes three
  tests: a line is passed over when it has fewer than four cells, when its first cell is
  \<^verbatim>\<open>Plan\<close>, or when its first cell is a non-empty run of dashes (the other cells are not
  looked at). So a header line, a separator line and N data lines give the N rows of the
  data lines, in their order.
\<close>

theorem parse_table_rows_three_tests:
  "parse_table_rows markdown =
     map (take 4) (filter (\<lambda>cells. \<not> row_rejected cells) (table_cells markdown))
   \<and> (list_all (list_all (\<lambda>c. \<not> is_linebreak c)) (header # separator # data)
        \<and> prefix ''|'' (strip header) \<and> hd (row_cells (strip header)) = ''Plan''
        \<and> prefix ''|'' (strip separator) \<and> dash_only (hd (row_cells (strip separator)))
        \<and> list_all (\<lambda>d. prefix ''|'' (strip d) \<and> \<not> row_rejected (row_cells (strip d))) data
      \<longrightarrow> parse_table_rows (concat (map (\<lambda>l. l @ [LF]) (header # separator # data)))
            = map (\<lambda>d. take 4 (row_cells (strip d))) data)"
proof (intro conjI impI)
  show "parse_table_rows markdown =
     map (take 4) (filter (\<lambda>cells. \<not> row_rejected cells) (table_cells markdown))"
    by (simp add: parse_table_rows_filter table_cells_def)
next
  assume h: "list_all (list_all (\<lambda>c. \<not> is_linebreak c)) (header # separator # data)
        \<and> prefix ''|'' (strip header) \<and> hd (row_cells (strip header)) = ''Plan''
        \<and> prefix ''|'' (strip separator) \<and> dash_only (hd (row_cells (strip separator)))
        \<and> list_all (\<lambda>d. prefix ''|'' (strip d) \<and> \<not> row_rejected (row_cells (strip d))) data"
  have 1: "table_line header = None" using h by (intro table_line_header) simp_all
  have 2: "table_line separator = None" using h by (intro table_line_header) simp_all
  show "parse_table_rows (concat (map (\<lambda>l. l @ [LF]) (header # separator # data)))
            = map (\<lambda>d. take 4 (row_cells (strip d))) data"
    using h by (intro parse_table_rows_table 1 2) simp_all
qed

text \<open>A header, a separator and two data lines give two rows.\<close>

theorem parse_table_rows_three_tests_witness:
  "parse_table_rows (concat (map (\<lambda>l. l @ [LF])
      [''| Plan | Status | Superseded By | Notes |'',
       ''|------|--------|---------------|-------|'',
       ''| `a.md` | Active | - | current |'',
       ''| `b.md` | Superseded | `a.md` | replaced |'']))
   = [[''`a.md`'', ''Active'', ''-'', ''current''],
      [''`b.md`'', ''Superseded'', ''`a.md`'', ''replaced'']]"
proof -
  let ?h = "''| Plan | Status | Superseded By | Notes |''"
  let ?s = "''|------|--------|---------------|-------|''"
  let ?data = "[''| `a.md` | Active | - | current |'', ''| `b.md` | Superseded | `a.md` | replaced |'']"
  have hyp: "list_all (list_all (\<lambda>c. \<not> is_linebreak c)) (?h # ?s # ?data)
        \<and> prefix ''|'' (strip ?h) \<and> hd (row_cells (strip ?h)) = ''Plan''
        \<and> prefix ''|'' (strip ?s) \<and> dash_only (hd (row_cells (strip ?s)))
        \<and> list_all (\<lambda>d. prefix ''|'' (strip d) \<and> \<not> row_rejected (row_cells (strip d))) ?data"
    by code_simp
  have rhs: "map (\<lambda>d. take 4 (row_cells (strip d))) ?data
     = [[''`a.md`'', ''Active'', ''-'', ''current''],
        [''`b.md`'', ''Superseded'', ''`a.md`'', ''replaced'']]"
    by code_simp
  from parse_table_rows_three_tests [of "[]" ?h ?s ?data, THEN conjunct2, THEN mp, OF hyp]
  have "parse_table_rows (concat (map (\<lambda>l. l @ [LF]) (?h # ?s # ?data)))
      = map (\<lambda>d. take 4 (row_cells (strip d))) ?data" .
  then show ?thesis unfolding rhs .
qed

text \<open>
  The claim as worded fails: in this line not every character of the cells is a dash, it
  has four cells and its first cell is not the header label, yet no row is yielded.
\<close>

theorem dash_test_counterexample:
  "row_cells ''| --- | a | b | c |'' = [''---'', ''a'', ''b'', ''c'']
   \<and> \<not> spec_row_rejected (row_cells ''| --- | a | b | c |'')
   \<and> parse_table_rows ''| --- | a | b | c |'' = []"
  by code_simp



lemma lstrip_idem: "lstrip (lstrip s) = lstrip s"
  by (simp add: lstrip_def dropWhile_idem)







subsection \<open>The plan lifecycle\<close>

lemma if_append_error: "(if c then e @ [m] else e) = e @ (if c then [m] else [])"
  by simp

lemma lifecycle_row_prefix:
  "lifecycle_row plans pc st sb (errors, n) =
     (errors @ fst (lifecycle_row plans pc st sb ([], 0)),
      n + snd (lifecycle_row plans pc st sb ([], 0)))"
  unfolding lifecycle_row_def Let_def if_append_error
  by (simp split: option.split)

lemma lifecycle_row_count:
  "snd (lifecycle_row plans pc st sb ([], 0)) = (if row_counted plans [pc, st, sb, nt] then 1 else 0)"
  unfolding lifecycle_row_def Let_def row_counted_def if_append_error
  by (simp split: option.split)

lemma lifecycle_row_messages:
  "list_all row_message errors \<Longrightarrow>
   list_all row_message (fst (lifecycle_row plans pc st sb (errors, n)))"
  unfolding lifecycle_row_def Let_def if_append_error
  by (simp split: option.split add: row_message_def)

lemma row_errors_messages: "list_all row_message (row_errors plans row)"
proof (cases "\<exists>pc st sb nt. row = [pc, st, sb, nt]")
  case True
  then show ?thesis
    using lifecycle_row_messages [of "[]"] by (auto simp: row_errors_def)
next
  case False
  then have "row_errors plans row = []"
    by (auto simp: row_errors_def split: list.splits)
  then show ?thesis by simp
qed

lemma lifecycle_loop_closed:
  assumes "list_all (\<lambda>row. length row = 4) rows"
  shows "lifecycle_loop plans rows (errors, n) =
           Some (errors @ concat (map (row_errors plans) rows),
                 n + length (filter (row_counted plans) rows))"
  using assms
proof (induction rows arbitrary: errors n)
  case Nil
  then show ?case by simp
next
  case (Cons row rows)
  then obtain pc st sb nt where row: "row = [pc, st, sb, nt]"
    by (auto simp: length_Suc_conv numeral_eq_Suc)
  have step: "lifecycle_row plans pc st sb (errors, n) =
      (errors @ row_errors plans row, n + (if row_counted plans row then 1 else 0))"
    unfolding row
    by (subst lifecycle_row_prefix) (simp add: lifecycle_row_count [where nt = nt] row_errors_def)
  have "lifecycle_loop plans (row # rows) (errors, n) =
          lifecycle_loop plans rows (lifecycle_row plans pc st sb (errors, n))"
    by (simp add: row)
  also have "\<dots> = Some ((errors @ row_errors plans row) @ concat (map (row_errors plans) rows),
         (n + (if row_counted plans row then 1 else 0)) + length (filter (row_counted plans) rows))"
    unfolding step using Cons by simp
  finally show ?case by simp
qed

lemma parse_table_rows_all_four: "list_all (\<lambda>row. length row = 4) (parse_table_rows markdown)"
  by (simp add: list_all_iff parse_table_rows_length)

text \<open>
  Claim C5, as the code has it. For a lifecycle file with at least one table row, the
  errors are those of the rows, in order, followed by the aggregate error exactly when no
  row reaches the count: a row is counted when its status is \<^verbatim>\<open>Superseded\<close>, its plan cell
  is a code path and its plan file exists. No error of a row is the aggregate message.
\<close>

theorem lifecycle_aggregate_error:
  assumes "lifecycle_file env = Some text" and "text \<noteq> []" and "parse_table_rows text \<noteq> []"
  shows "validate_plan_lifecycle env errors =
           Some (errors @ concat (map (row_errors (plan_file env)) (parse_table_rows text))
                 @ (if list_ex (row_counted (plan_file env)) (parse_table_rows text) then []
                    else [''PLAN_LIFECYCLE.md should include at least one Superseded entry'']))
         \<and> ''PLAN_LIFECYCLE.md should include at least one Superseded entry''
             \<notin> set (concat (map (row_errors (plan_file env)) (parse_table_rows text)))"
proof -
  let ?rows = "parse_table_rows text"
  have loop: "lifecycle_loop (plan_file env) ?rows (errors, 0) =
      Some (errors @ concat (map (row_errors (plan_file env)) ?rows),
            0 + length (filter (row_counted (plan_file env)) ?rows))"
    by (rule lifecycle_loop_closed [OF parse_table_rows_all_four])
  have cnt: "(length (filter (row_counted (plan_file env)) ?rows) = 0)
      = (\<not> list_ex (row_counted (plan_file env)) ?rows)"
    by (simp add: list_ex_iff filter_empty_conv)
  have a: "validate_plan_lifecycle env errors =
           Some (errors @ concat (map (row_errors (plan_file env)) ?rows)
                 @ (if list_ex (row_counted (plan_file env)) ?rows then []
                    else [''PLAN_LIFECYCLE.md should include at least one Superseded entry'']))"
    using assms cnt
    by (simp add: validate_plan_lifecycle_def read_text_def loop)
  have "list_all row_message (concat (map (row_errors (plan_file env)) ?rows))"
    by (simp add: list_all_iff) (meson list_all_iff row_errors_messages)
  moreover have "\<not> row_message ''PLAN_LIFECYCLE.md should include at least one Superseded entry''"
    by (simp add: row_message_def)
  ultimately have b: "''PLAN_LIFECYCLE.md should include at least one Superseded entry''
             \<notin> set (concat (map (row_errors (plan_file env)) ?rows))"
    unfolding list_all_iff by blast
  show ?thesis using a b by blast
qed

text \<open>
  One Active row whose plan file lacks the Active marker: the marker error and the
  aggregate error, and no other.
\<close>

theorem lifecycle_aggregate_error_witness:
  "validate_plan_lifecycle
     \<lparr>roadmap_file = None, changelog_file = None,
      lifecycle_file = Some ''| Plan | Status | Superseded By | Notes |\<newline>|------|--------|---------------|-------|\<newline>| `a.md` | Active | - | current |\<newline>'',
      template_file = None,
      plan_file = (\<lambda>rel. if rel = ''a.md'' then Some ''# Plan A\<newline>'' else None),
      link_target_exists = (\<lambda>rel. False)\<rparr> []
   = Some [''Active plan missing lifecycle marker: docs/plans/a.md'',
           ''PLAN_LIFECYCLE.md should include at least one Superseded entry'']"
proof -
  let ?text = "''| Plan | Status | Superseded By | Notes |\<newline>|------|--------|---------------|-------|\<newline>| `a.md` | Active | - | current |\<newline>''"
  let ?env = "\<lparr>roadmap_file = None, changelog_file = None,
      lifecycle_file = Some ?text,
      template_file = None,
      plan_file = (\<lambda>rel. if rel = ''a.md'' then Some ''# Plan A\<newline>'' else None),
      link_target_exists = (\<lambda>rel. False)\<rparr>"
  have rows: "parse_table_rows ?text = [[''`a.md`'', ''Active'', ''-'', ''current'']]"
    by code_simp
  have h1: "lifecycle_file ?env = Some ?text" by simp
  have h2: "?text \<noteq> []" by simp
  have h3: "parse_table_rows ?text \<noteq> []" by (simp add: rows)
  have e: "row_errors ((\<lambda>rel. if rel = ''a.md'' then Some ''# Plan A\<newline>'' else None)) [''`a.md`'', ''Active'', ''-'', ''current'']
     = [''Active plan missing lifecycle marker: docs/plans/a.md'']"
    by code_simp
  have c: "\<not> row_counted ((\<lambda>rel. if rel = ''a.md'' then Some ''# Plan A\<newline>'' else None)) [''`a.md`'', ''Active'', ''-'', ''current'']"
    by code_simp
  show ?thesis
    using lifecycle_aggregate_error [OF h1 h2 h3, of "[]"] e c
    by (simp add: rows)
qed

text \<open>
  The claim as worded fails: the only row has status \<^verbatim>\<open>Superseded\<close>, its plan file is
  missing, and the aggregate error is reported.
\<close>

theorem lifecycle_aggregate_error_counterexample:
  "parse_table_rows ''| Plan | Status | Superseded By | Notes |\<newline>|------|--------|---------------|-------|\<newline>| `old.md` | Superseded | `new.md` | replaced |\<newline>''
     = [[''`old.md`'', ''Superseded'', ''`new.md`'', ''replaced'']]
   \<and> validate_plan_lifecycle
     \<lparr>roadmap_file = None, changelog_file = None,
      lifecycle_file = Some ''| Plan | Status | Superseded By | Notes |\<newline>|------|--------|---------------|-------|\<newline>| `old.md` | Superseded | `new.md` | replaced |\<newline>'',
      template_file = None,
      plan_file = (\<lambda>rel. None),
      link_target_exists = (\<lambda>rel. False)\<rparr> []
   = Some [''Lifecycle entry references missing file: docs/plans/old.md'',
           ''PLAN_LIFECYCLE.md should include at least one Superseded entry'']"
  by code_simp

text \<open>
  Claim C1, as the code has it. For a row with status \<^verbatim>\<open>Superseded\<close> whose plan file and
  target file exist and whose plan text has the Superseded marker: the row adds no error
  when the plan's own text contains the path of the target, and otherwise exactly one,
  the missing-reference error. The text of the target file is not read.
\<close>

theorem superseded_row_reference:
  assumes "parse_code_path plan_cell = Some plan_rel" and "plan_rel \<noteq> []" and "plan_rel \<noteq> ''-''"
    and "plans plan_rel = Some plan_text"
    and "contains plan_text ''**Lifecycle:** Superseded''"
    and "parse_code_path superseded_by_cell = Some superseded_rel"
    and "superseded_rel \<noteq> []" and "superseded_rel \<noteq> ''-''"
    and "plans superseded_rel = Some target_text"
  shows "lifecycle_row plans plan_cell ''Superseded'' superseded_by_cell (errors, n) =
           ((if contains plan_text superseded_rel then errors
             else errors @ [''Superseded source missing explicit target reference '' @ sq
                              @ superseded_rel @ sq @ '': docs/plans/'' @ plan_rel]),
            n + 1)"
  using assms
  by (simp add: lifecycle_row_def LIFECYCLE_STATUSES_def)

text \<open>The superseded plan names its successor: no error.\<close>

theorem superseded_row_reference_witness:
  "lifecycle_row
     ((\<lambda>rel. if rel = ''old.md'' then Some ''# Old\<newline>**Lifecycle:** Superseded\<newline>Replaced by new.md\<newline>''
            else if rel = ''new.md'' then Some ''# New\<newline>'' else None))
     ''`old.md`'' ''Superseded'' ''`new.md`'' ([], 0) = ([], 1)"
proof -
  let ?plans = "(\<lambda>rel. if rel = ''old.md'' then Some ''# Old\<newline>**Lifecycle:** Superseded\<newline>Replaced by new.md\<newline>''
            else if rel = ''new.md'' then Some ''# New\<newline>'' else None)"
  have h1: "parse_code_path ''`old.md`'' = Some ''old.md''" by code_simp
  have h2: "''old.md'' \<noteq> []" "''old.md'' \<noteq> ''-''" by simp_all
  have h3: "?plans ''old.md'' = Some ''# Old\<newline>**Lifecycle:** Superseded\<newline>Replaced by new.md\<newline>''" by simp
  have h4: "contains ''# Old\<newline>**Lifecycle:** Superseded\<newline>Replaced by new.md\<newline>'' ''**Lifecycle:** Superseded''"
    by code_simp
  have h5: "parse_code_path ''`new.md`'' = Some ''new.md''" by code_simp
  have h6: "''new.md'' \<noteq> []" "''new.md'' \<noteq> ''-''" by simp_all
  have h7: "?plans ''new.md'' = Some ''# New\<newline>''" by simp
  have h8: "contains ''# Old\<newline>**Lifecycle:** Superseded\<newline>Replaced by new.md\<newline>'' ''new.md''"
    by code_simp
  show ?thesis
    using superseded_row_reference [OF h1 h2 h3 h4 h5 h6 h7, of "[]" 0] h8 by simp
qed

text \<open>
  The claim as worded fails both ways: with the reference only in the target file the row
  has one error, and with no reference in the target file it has none.
\<close>

theorem superseded_back_reference_counterexample:
  "contains ''# New\<newline>Supersedes old.md\<newline>'' ''old.md''
   \<and> lifecycle_row
       ((\<lambda>rel. if rel = ''old.md'' then Some ''# Old\<newline>**Lifecycle:** Superseded\<newline>''
            else if rel = ''new.md'' then Some ''# New\<newline>Supersedes old.md\<newline>'' else None))
       ''`old.md`'' ''Superseded'' ''`new.md`'' ([], 0)
     = ([''Superseded source missing explicit target reference 'new.md': docs/plans/old.md''], 1)
   \<and> \<not> contains ''# New\<newline>'' ''old.md''
   \<and> lifecycle_row
       ((\<lambda>rel. if rel = ''old.md'' then Some ''# Old\<newline>**Lifecycle:** Superseded\<newline>Replaced by new.md\<newline>''
            else if rel = ''new.md'' then Some ''# New\<newline>'' else None))
       ''`old.md`'' ''Superseded'' ''`new.md`'' ([], 0)
     = ([], 1)"
  by code_simp

subsection \<open>The release notes\<close>





























subsection \<open>The roadmap metadata\<close>

lemma search_bol_first_match:
  assumes "m [] = None"
    and "\<And>t. t \<noteq> [] \<Longrightarrow> Q (first_line t) \<Longrightarrow> m t = f (first_line t)"
    and "list_all Q (text_lines s)"
  shows "search_bol m True s = first_match f (text_lines s)"
  using assms(3)
proof (induction s rule: text_lines.induct)
  case (1 s)
  show ?case
  proof (cases "s = []")
    case True
    then show ?thesis using assms(1) by (simp add: text_lines.simps [of "[]"])
  next
    case False
    have tl: "text_lines s = first_line s # text_lines (rest_lines s)"
      using False by (subst text_lines.simps) simp
    have q: "Q (first_line s)" and qs: "list_all Q (text_lines (rest_lines s))"
      using "1.prems" unfolding tl by simp_all
    have ms: "m s = f (first_line s)" using assms(2) False q by blast
    show ?thesis
    proof (cases "m s")
      case None
      then have "search_bol m True s = search_bol m True (rest_lines s)"
        using assms(1) by (intro search_bol_skip_line)
      then show ?thesis using None ms "1.IH" [OF False qs] unfolding tl by simp
    next
      case (Some r)
      then have "search_bol m True s = Some r" by (rule search_bol_hit)
      moreover have "f (first_line s) = Some r" using ms Some by simp
      ultimately show ?thesis unfolding tl by simp
    qed
  qed
qed

lemma is_date_chars: "is_date d \<Longrightarrow> c \<in> set d \<Longrightarrow> is_digit c \<or> c = CHR ''-''"
proof -
  assume d: "is_date d" and c: "c \<in> set d"
  from c obtain i where i: "i < length d" "d ! i = c" by (auto simp: in_set_conv_nth)
  have len: "length d = 10" using d by (simp add: is_date_def)
  have a: "\<And>j. j < 4 \<Longrightarrow> is_digit (d ! j)"
    using d len by (simp add: is_date_def list_all_length)
  have b: "\<And>j. j < 2 \<Longrightarrow> is_digit (d ! (5 + j))"
    using d len by (simp add: is_date_def list_all_length)
  have e: "\<And>j. j < 2 \<Longrightarrow> is_digit (d ! (8 + j))"
    using d len by (simp add: is_date_def list_all_length)
  have h: "d ! 4 = CHR ''-''" "d ! 7 = CHR ''-''" using d by (simp_all add: is_date_def)
  consider "i < 4" | "i = 4" | "i = 5" | "i = 6" | "i = 7" | "i = 8" | "i = 9"
    using i(1) len by linarith
  then show ?thesis
  proof cases
    case 1 then show ?thesis using a i by blast
  next
    case 2 then show ?thesis using h i by simp
  next
    case 3 then show ?thesis using b [of 0] i by simp
  next
    case 4 then show ?thesis using b [of 1] i by simp
  next
    case 5 then show ?thesis using h i by simp
  next
    case 6 then show ?thesis using e [of 0] i by simp
  next
    case 7 then show ?thesis using e [of 1] i by simp
  qed
qed

lemma digit_not_space: "is_digit c \<or> c = CHR ''-'' \<Longrightarrow> \<not> is_space c \<and> c \<noteq> LF"
  by (auto simp: is_digit_def is_space_def)

lemma is_date_no_space: "is_date d \<Longrightarrow> c \<in> set d \<Longrightarrow> \<not> is_space c \<and> c \<noteq> LF"
  using is_date_chars digit_not_space by blast

lemma is_date_length: "is_date d \<Longrightarrow> length d = 10"
  by (simp add: is_date_def)

lemma date_to_eol_space: "is_space c \<Longrightarrow> date_to_eol (c # cs) = None"
proof (rule ccontr)
  assume sp: "is_space c" and "date_to_eol (c # cs) \<noteq> None"
  then have d: "is_date (take 10 (c # cs))" by (auto simp: date_to_eol_def split: if_splits)
  have "c \<in> set (take 10 (c # cs))" by (simp add: take_Cons')
  then show False using is_date_no_space [OF d] sp by blast
qed

lemma star_space_date: "star_space_then date_to_eol r = date_to_eol (dropWhile is_space r)"
  by (induction r) (auto simp: date_to_eol_space split: option.splits)

lemma strip_date: "is_date d \<Longrightarrow> strip d = d"
proof -
  assume d: "is_date d"
  then have ne: "d \<noteq> []" by (auto simp: is_date_def)
  have h: "\<not> is_space (hd d)" using is_date_no_space [OF d, of "hd d"] ne by simp
  have l: "\<not> is_space (last d)" using is_date_no_space [OF d, of "last d"] ne by simp
  have "lstrip d = d" using ne h by (cases d) (simp_all add: lstrip_def)
  moreover have "rstrip d = d" using ne l by (cases d rule: rev_cases) (simp_all add: rstrip_def)
  ultimately show ?thesis by (simp add: strip_def)
qed

lemma first_line_append_no_LF: "LF \<notin> set p \<Longrightarrow> first_line (p @ r) = p @ first_line r"
  by (simp add: first_line_def takeWhile_no_LF dropWhile_no_LF)

lemma takeWhile_first_line: "takeWhile (\<lambda>c. c \<noteq> LF) (first_line r) = takeWhile (\<lambda>c. c \<noteq> LF) r"
  by (induction r) (simp_all add: first_line_Cons first_line_Nil)

lemma date_to_eol_line:
  assumes "LF \<notin> set v" and "b = [] \<or> hd b = LF"
  shows "date_to_eol (v @ b) = (if is_date v then Some v else None)"
proof (cases "is_date v")
  case True
  then have "length v = 10" by (rule is_date_length)
  then show ?thesis using True assms(2) by (cases b) (auto simp: date_to_eol_def)
next
  case False
  have "date_to_eol (v @ b) = None"
  proof (rule ccontr)
    assume "date_to_eol (v @ b) \<noteq> None"
    then have d: "is_date (take 10 (v @ b))"
      and e: "(case drop 10 (v @ b) of [] \<Rightarrow> True | c # _ \<Rightarrow> c = LF)"
      by (auto simp: date_to_eol_def split: if_splits)
    have len: "length (take 10 (v @ b)) = 10" using d by (rule is_date_length)
    consider "length v < 10" | "length v = 10" | "10 < length v" by linarith
    then show False
    proof cases
      case 1
      then have "b \<noteq> []" using len by auto
      then obtain b' where b: "b = LF # b'" using assms(2) by (cases b) auto
      have "LF \<in> set (take 10 (v @ b))" using 1 unfolding b by (simp add: take_Cons')
      then show False using is_date_no_space [OF d] by blast
    next
      case 2
      then show False using d False by simp
    next
      case 3
      then have "drop 10 v = (v ! 10) # drop 11 v"
        using Cons_nth_drop_Suc [of 10 v] by simp
      then have "drop 10 (v @ b) = (v ! 10) # drop 11 v @ b"
        using 3 by simp
      moreover have "v ! 10 \<noteq> LF" using 3 assms(1) by (metis nth_mem)
      ultimately show False using e by simp
    qed
  qed
  then show ?thesis using False by simp
qed

lemma date_pattern_line:
  assumes "t \<noteq> []" and "line_value ''**Last Updated:**'' (first_line t) \<noteq> Some []"
  shows "after_literal ''**Last Updated:**'' (star_space_then date_to_eol) t
           = date_line_value (first_line t)"
proof (cases "prefix ''**Last Updated:**'' t")
  case False
  then have "\<not> prefix ''**Last Updated:**'' (first_line t)"
    by (subst prefix_first_line) simp_all
  then show ?thesis using False
    by (simp add: after_literal_def date_line_value_def line_value_def)
next
  case True
  then obtain r where t: "t = ''**Last Updated:**'' @ r" by (auto simp: prefix_def)
  have fl: "first_line t = ''**Last Updated:**'' @ first_line r"
    unfolding t by (rule first_line_append_no_LF) simp
  let ?a = "takeWhile (\<lambda>c. c \<noteq> LF) r"
  let ?b = "dropWhile (\<lambda>c. c \<noteq> LF) r"
  let ?v = "dropWhile is_space ?a"
  have lv: "line_value ''**Last Updated:**'' (first_line t) = Some ?v"
    unfolding fl by (simp add: line_value_def lstrip_def takeWhile_first_line)
  then have ne: "?v \<noteq> []" using assms(2) by simp
  then obtain x where x: "x \<in> set ?a" "\<not> is_space x"
    by (metis dropWhile_eq_Nil_conv)
  have "dropWhile is_space r = dropWhile is_space (?a @ ?b)" by simp
  also have "\<dots> = ?v @ ?b" using x by (rule dropWhile_append1)
  finally have dr: "dropWhile is_space r = ?v @ ?b" .
  have noLF: "LF \<notin> set ?v"
    by (metis (mono_tags, lifting) set_dropWhileD set_takeWhileD)
  have b: "?b = [] \<or> hd ?b = LF"
    using hd_dropWhile [of "\<lambda>c. c \<noteq> LF" r] by auto
  have "after_literal ''**Last Updated:**'' (star_space_then date_to_eol) t
      = date_to_eol (?v @ ?b)"
    unfolding t by (simp add: after_literal_def star_space_date dr)
  also have "\<dots> = (if is_date ?v then Some ?v else None)"
    using noLF b by (rule date_to_eol_line)
  finally show ?thesis by (simp add: date_line_value_def lv)
qed

lemma date_match_lines:
  assumes "\<forall>l \<in> set (text_lines roadmap). line_value ''**Last Updated:**'' l \<noteq> Some []"
  shows "date_match roadmap = spec_date_value roadmap"
  unfolding date_match_def spec_date_value_def
proof (rule search_bol_first_match [where Q = "\<lambda>l. line_value ''**Last Updated:**'' l \<noteq> Some []"])
  show "after_literal ''**Last Updated:**'' (star_space_then date_to_eol) [] = None"
    by (simp add: after_literal_def)
  show "list_all (\<lambda>l. line_value ''**Last Updated:**'' l \<noteq> Some []) (text_lines roadmap)"
    using assms by (simp add: list_all_iff)
qed (rule date_pattern_line)

lemma first_match_is_date: "first_match date_line_value ls = Some d \<Longrightarrow> is_date d"
  by (induction ls) (auto simp: date_line_value_def split: option.splits if_splits)

text \<open>
  Claim C8, as far as the code goes. In a roadmap where every line that begins with
  \<^verbatim>\<open>**Last Updated:**\<close> has some text that is not whitespace after the label, the date
  \<^verbatim>\<open>parse_roadmap_metadata\<close> returns is the value of the first such line whose value is
  exactly a date, and when there is none (each value is malformed, trailing text
  included) it returns the empty date and appends the missing-metadata error for the
  field, never another one. The function is total: it always returns.
\<close>

theorem malformed_date_is_absent:
  assumes "\<forall>l \<in> set (text_lines roadmap). line_value ''**Last Updated:**'' l \<noteq> Some []"
  shows "parse_roadmap_metadata roadmap errors =
           (((case phase_match roadmap of Some g \<Rightarrow> strip g | None \<Rightarrow> []),
             (case spec_date_value roadmap of Some d \<Rightarrow> d | None \<Rightarrow> [])),
            (if phase_match roadmap = None
             then errors @ [''Roadmap is missing '**Current Phase:**' metadata''] else errors)
            @ (if spec_date_value roadmap = None
               then [''Roadmap is missing '**Last Updated:**' metadata''] else []))"
proof -
  have dm: "date_match roadmap = spec_date_value roadmap"
    using assms by (rule date_match_lines)
  have "strip d = d" if "spec_date_value roadmap = Some d" for d
    using that first_match_is_date strip_date unfolding spec_date_value_def by blast
  then show ?thesis
    unfolding parse_roadmap_metadata_def dm Let_def
    by (cases "spec_date_value roadmap") simp_all
qed

text \<open>A date followed by more text on its line: the field is reported as missing.\<close>

theorem malformed_date_is_absent_witness:
  "parse_roadmap_metadata ''**Current Phase:** M3\<newline>**Last Updated:** 2024-05-01 (draft)\<newline>'' []
     = ((''M3'', []), [''Roadmap is missing '**Last Updated:**' metadata''])"
proof -
  let ?r = "''**Current Phase:** M3\<newline>**Last Updated:** 2024-05-01 (draft)\<newline>''"
  have h: "\<forall>l \<in> set (text_lines ?r). line_value ''**Last Updated:**'' l \<noteq> Some []"
    by code_simp
  have p: "phase_match ?r = Some ''M3''" by code_simp
  have s: "strip ''M3'' = ''M3''" by code_simp
  have d: "spec_date_value ?r = None" by code_simp
  show ?thesis
    using malformed_date_is_absent [OF h, of "[]"] by (simp add: p s d)
qed

text \<open>
  The claim as worded fails where the label's line has no value: the whitespace the
  pattern skips after the label includes line feeds, and the date of the next line is
  taken for the field.
\<close>

theorem date_on_next_line_counterexample:
  "text_lines ''**Current Phase:** M3\<newline>**Last Updated:**\<newline>2024-05-01\<newline>''
     = [''**Current Phase:** M3\<newline>'', ''**Last Updated:**\<newline>'', ''2024-05-01\<newline>'']
   \<and> spec_date_value ''**Current Phase:** M3\<newline>**Last Updated:**\<newline>2024-05-01\<newline>'' = None
   \<and> parse_roadmap_metadata ''**Current Phase:** M3\<newline>**Last Updated:**\<newline>2024-05-01\<newline>'' []
     = ((''M3'', ''2024-05-01''), [])"
  by code_simp

subsection \<open>Roadmap and changelog alignment\<close>









subsection \<open>The driver\<close>

lemma read_text_other:
  "other_errors errors \<Longrightarrow> other_errors (snd (read_text file rel errors))"
  by (auto simp: read_text_def is_alignment_error_def split: option.splits)

lemma link_errors_other:
  "other_errors errors \<Longrightarrow> other_errors (link_errors ex rels errors)"
  by (induction rels arbitrary: errors) (auto simp: is_alignment_error_def)

lemma parse_roadmap_metadata_other:
  "other_errors errors \<Longrightarrow> other_errors (snd (parse_roadmap_metadata roadmap errors))"
  by (auto simp: parse_roadmap_metadata_def Let_def is_alignment_error_def)

lemma extract_unreleased_other:
  "other_errors errors \<Longrightarrow> other_errors (snd (extract_unreleased changelog errors))"
  by (auto simp: extract_unreleased_def is_alignment_error_def split: option.splits)

lemma template_loop_other:
  "other_errors errors \<Longrightarrow> other_errors (template_loop template headings errors)"
  by (induction headings arbitrary: errors) (auto simp: is_alignment_error_def)

lemma validate_release_template_other:
  assumes "other_errors errors"
  shows "other_errors (validate_release_template env errors)"
proof (cases "template_file env")
  case None
  then show ?thesis using read_text_other [OF assms, of None]
    by (simp add: validate_release_template_def read_text_def)
next
  case (Some t)
  then show ?thesis using assms template_loop_other [OF assms]
    by (simp add: validate_release_template_def read_text_def)
qed

lemma row_message_other: "row_message m \<Longrightarrow> \<not> is_alignment_error m"
  by (cases m) (auto simp: row_message_def is_alignment_error_def)

lemma row_errors_other: "other_errors (concat (map (row_errors plans) rows))"
  using row_errors_messages [of plans] row_message_other
  by (auto simp: list_all_iff)

lemma validate_plan_lifecycle_other:
  assumes "other_errors errors"
  shows "\<exists>errors'. validate_plan_lifecycle env errors = Some errors' \<and> other_errors errors'"
proof (cases "lifecycle_file env")
  case None
  then show ?thesis using read_text_other [OF assms, of None "''docs/plans/PLAN_LIFECYCLE.md''"]
    by (simp add: validate_plan_lifecycle_def read_text_def)
next
  case (Some content)
  show ?thesis
  proof (cases "content = [] \<or> parse_table_rows content = []")
    case True
    then show ?thesis using Some assms
      by (auto simp: validate_plan_lifecycle_def read_text_def is_alignment_error_def)
  next
    case False
    have loop: "lifecycle_loop (plan_file env) (parse_table_rows content) (errors, 0) =
      Some (errors @ concat (map (row_errors (plan_file env)) (parse_table_rows content)),
            0 + length (filter (row_counted (plan_file env)) (parse_table_rows content)))"
      by (rule lifecycle_loop_closed [OF parse_table_rows_all_four])
    have agg: "\<not> is_alignment_error ''PLAN_LIFECYCLE.md should include at least one Superseded entry''"
      by (simp add: is_alignment_error_def)
    show ?thesis
      using False Some assms agg row_errors_other [of "plan_file env" "parse_table_rows content"]
      by (simp add: validate_plan_lifecycle_def read_text_def loop)
  qed
qed

lemma parse_roadmap_metadata_fst:
  "fst (parse_roadmap_metadata roadmap errors) = fst (parse_roadmap_metadata roadmap [])"
  by (simp add: parse_roadmap_metadata_def Let_def)

lemma extract_unreleased_fst:
  "fst (extract_unreleased changelog errors) = fst (extract_unreleased changelog [])"
  by (simp add: extract_unreleased_def split: option.splits)

lemma alignment_errors_recognised:
  "\<exists>es. validate_roadmap_alignment_block rp rd unreleased errors = errors @ es
        \<and> list_all is_alignment_error es"
proof (cases "block_match unreleased")
  case None
  then show ?thesis
    by (simp add: validate_roadmap_alignment_block_def is_alignment_error_def)
next
  case (Some block)
  let ?a = "if block_phase_match block = None
            then [''Roadmap Alignment block missing '- Current roadmap phase:'' @ sq] else []"
  let ?b = "if block_updated_match block = None
            then [''Roadmap Alignment block missing '- Roadmap last updated:'' @ sq] else []"
  let ?c = "case block_phase_match block of None \<Rightarrow> []
            | Some g \<Rightarrow> if strip g \<noteq> rp then [phase_mismatch rp (strip g)] else []"
  let ?d = "case block_updated_match block of None \<Rightarrow> []
            | Some g \<Rightarrow> if strip g \<noteq> rd then [updated_mismatch rd (strip g)] else []"
  have "validate_roadmap_alignment_block rp rd unreleased errors = errors @ (?a @ ?b @ ?c @ ?d)"
    using Some
    by (simp add: validate_roadmap_alignment_block_def Let_def split: option.splits)
  moreover have "list_all is_alignment_error (?a @ ?b @ ?c @ ?d)"
    by (simp add: is_alignment_error_def phase_mismatch_def updated_mismatch_def
        split: option.splits)
  ultimately show ?thesis by blast
qed

text \<open>
  Claim C10. \<^verbatim>\<open>main\<close> always gets to its report, and when the roadmap or the changelog is
  missing or empty, or the parsed phase, the parsed date or the extracted Unreleased body
  is empty, no error of the alignment check is among the errors it has collected: not the
  missing block, not a missing line, not a mismatch. Every error the alignment check adds
  is told by \<open>is_alignment_error\<close>.
\<close>

theorem alignment_gate:
  assumes "case alignment_inputs env of
             None \<Rightarrow> True
           | Some (phase, date, unreleased) \<Rightarrow> phase = [] \<or> date = [] \<or> unreleased = []"
  shows "(\<exists>errors. check_errors env = Some errors
            \<and> list_all (\<lambda>m. \<not> is_alignment_error m) errors)
         \<and> (\<exists>added. validate_roadmap_alignment_block rp rd unreleased0 errors0 = errors0 @ added
            \<and> list_all is_alignment_error added)"
proof (rule conjI [OF _ alignment_errors_recognised])
  obtain roadmap e1 where r: "read_text (roadmap_file env) ''docs/project/roadmap.md'' [] = (roadmap, e1)"
    by (cases "read_text (roadmap_file env) ''docs/project/roadmap.md'' []") auto
  obtain changelog e2 where c: "read_text (changelog_file env) ''CHANGELOG.md'' e1 = (changelog, e2)"
    by (cases "read_text (changelog_file env) ''CHANGELOG.md'' e1") auto
  have o1: "other_errors e1"
    using read_text_other [of "[]" "roadmap_file env" "''docs/project/roadmap.md''"] r by simp
  have o2: "other_errors e2"
    using read_text_other [OF o1, of "changelog_file env" "''CHANGELOG.md''"] c by simp
  let ?links = "validate_roadmap_links env roadmap e2"
  have ol: "other_errors ?links"
    using o2 link_errors_other by (simp add: validate_roadmap_links_def)
  have "\<exists>e4. other_errors e4 \<and> check_errors env =
      (case validate_plan_lifecycle env e4 of
         None \<Rightarrow> None | Some e7 \<Rightarrow> Some (validate_release_template env e7))"
  proof (cases "roadmap \<noteq> [] \<and> changelog \<noteq> []")
    case False
    let ?e3 = "if roadmap \<noteq> [] then ?links else e2"
    have "other_errors ?e3" using o2 ol by simp
    moreover have "check_errors env =
      (case validate_plan_lifecycle env ?e3 of
         None \<Rightarrow> None | Some e7 \<Rightarrow> Some (validate_release_template env e7))"
      using False by (auto simp: check_errors_def r c Let_def)
    ultimately show ?thesis by blast
  next
    case True
    obtain phase date e5 where p: "parse_roadmap_metadata roadmap ?links = ((phase, date), e5)"
      by (cases "parse_roadmap_metadata roadmap ?links") auto
    obtain unreleased e6 where u: "extract_unreleased changelog e5 = (unreleased, e6)"
      by (cases "extract_unreleased changelog e5") auto
    have o5: "other_errors e5" using parse_roadmap_metadata_other [OF ol, of roadmap] p by simp
    have o6: "other_errors e6" using extract_unreleased_other [OF o5, of changelog] u by simp
    have rf: "roadmap_file env = Some roadmap" and cf: "changelog_file env = Some changelog"
      using r c True by (auto simp: read_text_def split: option.splits)
    have "fst (parse_roadmap_metadata roadmap []) = (phase, date)"
      using parse_roadmap_metadata_fst [of roadmap ?links] p by simp
    moreover have "fst (extract_unreleased changelog []) = unreleased"
      using extract_unreleased_fst [of changelog e5] u by simp
    ultimately have "alignment_inputs env = Some (phase, date, unreleased)"
      using rf cf True by (simp add: alignment_inputs_def)
    then have gate: "\<not> (phase \<noteq> [] \<and> date \<noteq> [] \<and> unreleased \<noteq> [])" using assms by auto
    have "check_errors env =
      (case validate_plan_lifecycle env e6 of
         None \<Rightarrow> None | Some e7 \<Rightarrow> Some (validate_release_template env e7))"
      using True gate by (auto simp: check_errors_def r c p u Let_def)
    then show ?thesis using o6 by blast
  qed
  then obtain e4 where o4: "other_errors e4" and ce: "check_errors env =
      (case validate_plan_lifecycle env e4 of
         None \<Rightarrow> None | Some e7 \<Rightarrow> Some (validate_release_template env e7))" by blast
  obtain e7 where v: "validate_plan_lifecycle env e4 = Some e7" and o7: "other_errors e7"
    using validate_plan_lifecycle_other [OF o4] by blast
  show "\<exists>errors. check_errors env = Some errors
            \<and> list_all (\<lambda>m. \<not> is_alignment_error m) errors"
    using ce v validate_release_template_other [OF o7] by simp
qed

text \<open>
  An Unreleased section that is there with an empty body: the check is not run, and the
  missing alignment block is not reported.
\<close>

theorem alignment_gate_witness:
  "alignment_inputs
     \<lparr>roadmap_file = Some ''**Current Phase:** M3\<newline>**Last Updated:** 2024-05-01\<newline>'',
      changelog_file = Some ''# Changelog\<newline>## [Unreleased]\<newline>'',
      lifecycle_file = None, template_file = None,
      plan_file = (\<lambda>rel. None), link_target_exists = (\<lambda>rel. False)\<rparr>
     = Some (''M3'', ''2024-05-01'', [])
   \<and> check_errors
     \<lparr>roadmap_file = Some ''**Current Phase:** M3\<newline>**Last Updated:** 2024-05-01\<newline>'',
      changelog_file = Some ''# Changelog\<newline>## [Unreleased]\<newline>'',
      lifecycle_file = None, template_file = None,
      plan_file = (\<lambda>rel. None), link_target_exists = (\<lambda>rel. False)\<rparr>
     = Some [''Missing required file: docs/plans/PLAN_LIFECYCLE.md'',
             ''Missing required file: docs/project/RELEASE_NOTES_TEMPLATE.md'']"
proof -
  let ?env = "\<lparr>roadmap_file = Some ''**Current Phase:** M3\<newline>**Last Updated:** 2024-05-01\<newline>'',
      changelog_file = Some ''# Changelog\<newline>## [Unreleased]\<newline>'',
      lifecycle_file = None, template_file = None,
      plan_file = (\<lambda>rel. None), link_target_exists = (\<lambda>rel. False)\<rparr>"
  have a: "alignment_inputs ?env = Some (''M3'', ''2024-05-01'', [])" by code_simp
  have h: "case alignment_inputs ?env of
             None \<Rightarrow> True
           | Some (phase, date, unreleased) \<Rightarrow> phase = [] \<or> date = [] \<or> unreleased = []"
    unfolding a by simp
  have e: "check_errors ?env = Some [''Missing required file: docs/plans/PLAN_LIFECYCLE.md'',
             ''Missing required file: docs/project/RELEASE_NOTES_TEMPLATE.md'']"
    by code_simp
  from alignment_gate [OF h, THEN conjunct1]
  obtain errors where "check_errors ?env = Some errors"
    and "list_all (\<lambda>m. \<not> is_alignment_error m) errors" by blast
  then show ?thesis using a e by blast
qed

end
